theory Spec2Isabelle
  imports Main
begin

section \<open>Data model of \<open>tracers/tracer_langchain.ts\<close>\<close>

text \<open>
  Values of TypeScript type \<open>any\<close> that occur inside a \<open>KVMap\<close>
  (\<open>Record<string, any>\<close>): plain JSON-like data.
\<close>

datatype jsval =
    JNull
  | JBool bool
  | JNum int
  | JStr string
  | JArr "jsval list"
  | JObj "(string \<times> jsval) list"

type_synonym KVMap = "string \<rightharpoonup> jsval"

text \<open>
  Run objects are shared by reference (a node is at the same time an entry of
  its parent's \<open>child_runs\<close> and a value of the run map), so an object
  reference is an address, and a store maps addresses to objects.
\<close>

type_synonym addr = nat

text \<open>A thrown JavaScript \<open>Error\<close>, with its message.\<close>

datatype js_error = Error string

text \<open>
  \<open>interface Run extends BaseRun\<close>.  The first fourteen fields are those of
  \<open>BaseRun\<close> (\<open>langsmith/schemas\<close>), the last four are declared by \<open>Run\<close>
  itself.  An optional property (\<open>f?: T\<close>) is an \<open>option\<close>, \<open>None\<close>
  standing for \<open>undefined\<close>.  The field \<open>id\<close> is named \<open>run_id\<close>.
\<close>

record Run =
  run_id :: string
  name :: string
  run_type :: string
  start_time :: "int option"
  end_time :: "int option"
  extra :: "KVMap option"
  error :: "string option"
  serialized :: "KVMap option"
  events :: "KVMap list option"
  inputs :: KVMap
  outputs :: "KVMap option"
  reference_example_id :: "string option"
  parent_run_id :: "string option"
  tags :: "string list option"
  child_runs :: "addr list"
  child_execution_order :: int
  dotted_order :: "string option"
  trace_id :: "string option"

text \<open>
  \<open>interface RunCreate2 extends RunCreate\<close>: the creation payload.  It has the
  fields of \<open>BaseRun\<close>, the optional \<open>child_runs\<close> and \<open>session_name\<close> of
  \<open>RunCreate\<close>, \<open>trace_id\<close> and \<open>dotted_order\<close>, and the
  \<open>child_execution_order\<close> that the object spread copies from the run.
\<close>

record RunCreate =
  run_id :: string
  name :: string
  run_type :: string
  start_time :: "int option"
  end_time :: "int option"
  extra :: "KVMap option"
  error :: "string option"
  serialized :: "KVMap option"
  events :: "KVMap list option"
  inputs :: KVMap
  outputs :: "KVMap option"
  reference_example_id :: "string option"
  parent_run_id :: "string option"
  tags :: "string list option"
  child_runs :: "addr list option"
  child_execution_order :: int
  dotted_order :: "string option"
  trace_id :: "string option"
  session_name :: "string option"

text \<open>
  The update payload: the object literal of \<open>onRunUpdate\<close> has exactly these
  eight properties.
\<close>

record RunUpdate =
  end_time :: "int option"
  error :: "string option"
  outputs :: "KVMap option"
  events :: "KVMap list option"
  inputs :: KVMap
  trace_id :: "string option"
  dotted_order :: "string option"
  parent_run_id :: "string option"

text \<open>
  The persistence client (\<open>Client\<close> of \<open>langsmith\<close>, an external object).
  Its two methods are remote calls: each takes the state \<open>'w\<close> of the world
  outside the tracer, and returns either the error it rejects with (\<open>Inl\<close>)
  or success, together with the new state of that world.  \<open>apiUrl\<close> tells
  one destination from another.
\<close>

record 'w Client =
  apiUrl :: string
  createRun :: "RunCreate \<Rightarrow> 'w \<Rightarrow> (js_error + unit) \<times> 'w"
  updateRun :: "string \<Rightarrow> RunUpdate \<Rightarrow> 'w \<Rightarrow> (js_error + unit) \<times> 'w"

text \<open>
  A node of the ambient run tree (\<open>RunTree\<close> of \<open>langsmith/run_trees\<close>).  The
  constructor stores such a node in the run map as a \<open>Run\<close>, so a node has
  the fields of a run, and in addition the reference \<open>parent_run\<close> that the
  upward walk follows and the optional \<open>client\<close>.
\<close>

record 'w RunTree = Run +
  parent_run :: "addr option"
  client :: "'w Client option"

type_synonym 'w store = "addr \<Rightarrow> 'w RunTree"

text \<open>\<open>interface LangChainTracerFields\<close>.\<close>

record 'w LangChainTracerFields =
  exampleId :: "string option"
  projectName :: "string option"
  client :: "'w Client option"

text \<open>
  \<open>class LangChainTracer\<close>.  \<open>runMap\<close> is inherited from \<open>BaseTracer\<close>: a
  \<open>Map\<close> from run id to run object.
\<close>

record 'w LangChainTracer =
  name :: string
  projectName :: "string option"
  exampleId :: "string option"
  client :: "'w Client"
  runMap :: "string \<rightharpoonup> addr"

text \<open>
  What the constructor and the converters read from their surroundings:
  the environment variables (\<open>getEnvironmentVariable\<close>), the ambient-tree
  probe \<open>getCurrentRunTree\<close> (which throws, \<open>Inl\<close>, or returns a node or
  \<open>undefined\<close>), the object store the ambient tree lives in, the client that
  \<open>new Client({})\<close> builds, and the result of \<open>getRuntimeEnvironment\<close>.
\<close>

record 'w Host =
  getEnvironmentVariable :: "string \<Rightarrow> string option"
  getCurrentRunTree :: "js_error + addr option"
  store :: "'w store"
  newClient :: "'w Client"
  getRuntimeEnvironment :: jsval

section \<open>The tracer\<close>

text \<open>The nullish coalescing operator \<open>a ?? b\<close>.\<close>

definition nullish :: "'a option \<Rightarrow> 'a \<Rightarrow> 'a" where
  "nullish a b = (case a of None \<Rightarrow> b | Some x \<Rightarrow> x)"

definition nullish_opt :: "'a option \<Rightarrow> 'a option \<Rightarrow> 'a option" where
  "nullish_opt a b = (case a of None \<Rightarrow> b | Some x \<Rightarrow> Some x)"

text \<open>
  Truthiness of a value of type \<open>string | undefined\<close>: \<open>undefined\<close> and the
  empty string are falsy, every other string is truthy.
\<close>

definition truthy_str :: "string option \<Rightarrow> bool" where
  "truthy_str s = (case s of None \<Rightarrow> False | Some x \<Rightarrow> x \<noteq> [])"

text \<open>
  \<open>getTraceableRunTree\<close>: \<open>try { return getCurrentRunTree(); } catch { return undefined; }\<close>
\<close>

definition getTraceableRunTree :: "'w Host \<Rightarrow> addr option" where
  "getTraceableRunTree host =
     (case getCurrentRunTree host of Inl e \<Rightarrow> None | Inr r \<Rightarrow> r)"

text \<open>
  The upward walk of the constructor (lines 78 to 86), from the state
  \<open>(visited, rootRun)\<close>; it returns the final \<open>rootRun\<close>.  A reference to an
  object is truthy, so \<open>rootRun.parent_run\<close> is tested for being defined.  The
  second test of \<open>rootRun.parent_run\<close> in the loop body repeats the loop
  condition and never fires.  \<open>None\<close> is a loop that does not end.
\<close>

partial_function (option) findRoot ::
  "'w store \<Rightarrow> string set \<Rightarrow> addr \<Rightarrow> addr option" where
  "findRoot h visited rootRun =
     (case parent_run (h rootRun) of
        None \<Rightarrow> Some rootRun
      | Some p \<Rightarrow>
          if Run.run_id (h rootRun) \<in> visited then Some rootRun
          else findRoot h (insert (Run.run_id (h rootRun)) visited) p)"

text \<open>
  The breadth-first walk (lines 89 to 100), from the state
  \<open>(visited, runMap, queue)\<close>.  \<open>inserted\<close> records the calls of
  \<open>runMap.set\<close> in the order they are made (the node of each call); it is
  the only part of the state that the source does not hold.
  \<open>queue.shift()\<close> of a non-empty queue of nodes is a node, and an array is
  truthy, so the tests \<open>!current\<close> and \<open>current.child_runs\<close> do not branch.
  The result is the final run map and the recorded calls.
\<close>

partial_function (option) flatten ::
  "'w store \<Rightarrow> string set \<Rightarrow> (string \<rightharpoonup> addr) \<Rightarrow> addr list \<Rightarrow> addr list
     \<Rightarrow> ((string \<rightharpoonup> addr) \<times> addr list) option" where
  "flatten h visited rmap inserted queue =
     (case queue of
        [] \<Rightarrow> Some (rmap, inserted)
      | current # rest \<Rightarrow>
          if Run.run_id (h current) \<in> visited then flatten h visited rmap inserted rest
          else flatten h (insert (Run.run_id (h current)) visited)
                 (rmap(Run.run_id (h current) \<mapsto> current))
                 (inserted @ [current])
                 (rest @ Run.child_runs (h current)))"

text \<open>
  Modelled from the spec: the constructor of \<open>BaseTracer\<close> (\<open>super(fields)\<close>,
  in \<open>tracers/base.ts\<close>), of which the spec says that the run map is created
  empty at tracker construction.
\<close>

definition BaseTracer_runMap :: "string \<rightharpoonup> addr" where
  "BaseTracer_runMap = Map.empty"

text \<open>
  The fields of the tracer when the constructor reaches line 76, before the
  ambient tree is looked for.
\<close>

definition init_fields :: "'w Host \<Rightarrow> 'w LangChainTracerFields \<Rightarrow> 'w LangChainTracer" where
  "init_fields host flds =
     \<lparr> LangChainTracer.name = ''langchain_tracer'',
       projectName =
         nullish_opt (LangChainTracerFields.projectName flds)
           (nullish_opt (getEnvironmentVariable host ''LANGCHAIN_PROJECT'')
              (getEnvironmentVariable host ''LANGCHAIN_SESSION'')),
       exampleId = LangChainTracerFields.exampleId flds,
       client = nullish (LangChainTracerFields.client flds) (newClient host),
       runMap = BaseTracer_runMap \<rparr>"

text \<open>
  The constructor of \<open>LangChainTracer\<close>.  \<open>None\<close> is a constructor that does
  not return, because one of its two loops does not end.
\<close>

definition LangChainTracer_constructor ::
  "'w Host \<Rightarrow> 'w LangChainTracerFields \<Rightarrow> 'w LangChainTracer option" where
  "LangChainTracer_constructor host flds =
     (let this = init_fields host flds in
      case getTraceableRunTree host of
        None \<Rightarrow> Some this
      | Some traceableTree \<Rightarrow>
          (case findRoot (store host) {} traceableTree of
             None \<Rightarrow> None
           | Some rootRun \<Rightarrow>
               (case flatten (store host) {} (runMap this) [] [rootRun] of
                  None \<Rightarrow> None
                | Some (rmap, inserted) \<Rightarrow>
                    Some (this\<lparr> runMap := rmap,
                                client := nullish (RunTree.client (store host traceableTree))
                                            (LangChainTracer.client this) \<rparr>))))"

text \<open>\<open>getRun\<close>: \<open>this.runMap.get(id)\<close>.\<close>

definition getRun :: "'w LangChainTracer \<Rightarrow> string \<Rightarrow> addr option" where
  "getRun this i = runMap this i"

text \<open>
  \<open>_convertToCreate\<close>.  The object spread \<open>...run\<close> copies every field of the
  run; the four properties written after it replace what the spread copied.
  Spreading an \<open>extra\<close> that is \<open>undefined\<close> adds no property.
\<close>

definition convertToCreate ::
  "'w Host \<Rightarrow> 'w LangChainTracer \<Rightarrow> Run \<Rightarrow> string option \<Rightarrow> RunCreate" where
  "convertToCreate host this run example_id =
     \<lparr> RunCreate.run_id = Run.run_id run,
       name = Run.name run,
       run_type = Run.run_type run,
       start_time = Run.start_time run,
       end_time = Run.end_time run,
       extra = Some ((nullish (Run.extra run) Map.empty)(''runtime'' \<mapsto> getRuntimeEnvironment host)),
       error = Run.error run,
       serialized = Run.serialized run,
       events = Run.events run,
       inputs = Run.inputs run,
       outputs = Run.outputs run,
       reference_example_id =
         (if truthy_str (Run.parent_run_id run) then None else example_id),
       parent_run_id = Run.parent_run_id run,
       tags = Run.tags run,
       child_runs = None,
       child_execution_order = Run.child_execution_order run,
       dotted_order = Run.dotted_order run,
       trace_id = Run.trace_id run,
       session_name = LangChainTracer.projectName this \<rparr>"

text \<open>\<open>onRunCreate\<close>: convert, then one call of the client's \<open>createRun\<close>.\<close>

definition onRunCreate ::
  "'w Host \<Rightarrow> 'w LangChainTracer \<Rightarrow> Run \<Rightarrow> 'w \<Rightarrow> (js_error + unit) \<times> 'w" where
  "onRunCreate host this run w =
     (let persistedRun = convertToCreate host this run (LangChainTracer.exampleId this)
      in createRun (LangChainTracer.client this) persistedRun w)"

text \<open>
  The object literal \<open>runUpdate\<close> of \<open>onRunUpdate\<close> (lines 133 to 142), as a
  function of the run.
\<close>

definition toUpdatePayload :: "Run \<Rightarrow> RunUpdate" where
  "toUpdatePayload run =
     \<lparr> RunUpdate.end_time = Run.end_time run,
       error = Run.error run,
       outputs = Run.outputs run,
       events = Run.events run,
       inputs = Run.inputs run,
       trace_id = Run.trace_id run,
       dotted_order = Run.dotted_order run,
       parent_run_id = Run.parent_run_id run \<rparr>"

text \<open>\<open>onRunUpdate\<close>: one call of the client's \<open>updateRun\<close>, keyed by the run's id.\<close>

definition onRunUpdate ::
  "'w LangChainTracer \<Rightarrow> Run \<Rightarrow> 'w \<Rightarrow> (js_error + unit) \<times> 'w" where
  "onRunUpdate this run w =
     (let runUpdate = toUpdatePayload run
      in updateRun (LangChainTracer.client this) (Run.run_id run) runUpdate w)"

section \<open>\<open>RunnableTraceable\<close>\<close>

record 'f RunnableTraceableFields =
  func :: 'f

record 'f RunnableTraceable =
  lc_serializable :: bool
  lc_namespace :: "string list"
  func :: 'f

text \<open>
  The constructor of \<open>RunnableTraceable\<close>.  The capability check
  \<open>isTraceableFunction\<close> belongs to \<open>langsmith\<close> and is a parameter.  A
  \<open>throw\<close> is \<open>Inl\<close>: no instance exists then.
\<close>

definition RunnableTraceable_constructor ::
  "('f \<Rightarrow> bool) \<Rightarrow> 'f RunnableTraceableFields \<Rightarrow> js_error + 'f RunnableTraceable" where
  "RunnableTraceable_constructor isTraceableFunction flds =
     (if \<not> isTraceableFunction (RunnableTraceableFields.func flds)
      then Inl (Error ''RunnableTraceable requires a function that is wrapped in traceable higher-order function'')
      else Inr \<lparr> lc_serializable = False,
                 lc_namespace = [''langchain_core'', ''runnables''],
                 func = RunnableTraceableFields.func flds \<rparr>)"

section \<open>Notions used to state the properties\<close>

text \<open>The ids of the objects of a store.\<close>

definition run_ids :: "'w store \<Rightarrow> string set" where
  "run_ids h = range (\<lambda>a. Run.run_id (h a))"

text \<open>
  The state of the breadth-first walk is consistent: every recorded call of
  \<open>runMap.set\<close> was for an id that is now in \<open>visited\<close>, no id was set
  twice, and the run map holds exactly the recorded nodes, each under its id.
\<close>

definition flat_inv ::
  "'w store \<Rightarrow> string set \<Rightarrow> (string \<rightharpoonup> addr) \<Rightarrow> addr list \<Rightarrow> bool" where
  "flat_inv h visited rmap inserted \<longleftrightarrow>
     (\<lambda>a. Run.run_id (h a)) ` set inserted \<subseteq> visited \<and>
     distinct (map (\<lambda>a. Run.run_id (h a)) inserted) \<and>
     dom rmap = (\<lambda>a. Run.run_id (h a)) ` set inserted \<and>
     (\<forall>a \<in> set inserted. rmap (Run.run_id (h a)) = Some a)"

text \<open>
  The ambient tree is the chain \<open>a\<close> (root), its only child \<open>b\<close>, and the
  only child \<open>c\<close> of \<open>b\<close>: three nodes with three ids, linked by
  \<open>child_runs\<close> and \<open>parent_run\<close>, the references the two walks follow.
\<close>

definition chain3 :: "'w store \<Rightarrow> addr \<Rightarrow> addr \<Rightarrow> addr \<Rightarrow> bool" where
  "chain3 h a b c \<longleftrightarrow>
     distinct [Run.run_id (h a), Run.run_id (h b), Run.run_id (h c)] \<and>
     parent_run (h a) = None \<and> Run.child_runs (h a) = [b] \<and>
     parent_run (h b) = Some a \<and> Run.child_runs (h b) = [c] \<and>
     parent_run (h c) = Some b \<and> Run.child_runs (h c) = []"

text \<open>
  \<open>parent_chain h n path r\<close>: following \<open>parent_run\<close> from \<open>n\<close> leads to
  \<open>r\<close>, and \<open>path\<close> lists the nodes left behind on the way, \<open>n\<close> first.
\<close>

fun parent_chain :: "'w store \<Rightarrow> addr \<Rightarrow> addr list \<Rightarrow> addr \<Rightarrow> bool" where
  "parent_chain h n [] r = (n = r)"
| "parent_chain h n (x # xs) r =
     (x = n \<and> (case parent_run (h n) of None \<Rightarrow> False | Some p \<Rightarrow> parent_chain h p xs r))"

text \<open>The nodes that \<open>child_runs\<close> leads to from \<open>root\<close>, \<open>root\<close> included.\<close>

inductive_set descendants :: "'w store \<Rightarrow> addr \<Rightarrow> addr set"
  for h :: "'w store" and root :: addr where
  self: "root \<in> descendants h root"
| child: "a \<in> descendants h root \<Longrightarrow> c \<in> set (Run.child_runs (h a)) \<Longrightarrow> c \<in> descendants h root"

text \<open>
  The state of the breadth-first walk from \<open>root\<close>, queue included: \<open>visited\<close>
  is the set of the ids inserted, no id was inserted twice, the run map holds
  exactly the inserted nodes, each under its id; \<open>root\<close> is inserted, or is
  about to be; whatever is inserted or queued descends from \<open>root\<close>; and
  every child of an inserted node is queued, or its id is in \<open>visited\<close>.
\<close>

definition walk_inv ::
  "'w store \<Rightarrow> addr \<Rightarrow> string set \<Rightarrow> (string \<rightharpoonup> addr) \<Rightarrow> addr list \<Rightarrow> addr list \<Rightarrow> bool" where
  "walk_inv h root visited rmap inserted queue \<longleftrightarrow>
     visited = (\<lambda>a. Run.run_id (h a)) ` set inserted \<and>
     distinct (map (\<lambda>a. Run.run_id (h a)) inserted) \<and>
     dom rmap = visited \<and>
     (\<forall>a \<in> set inserted. rmap (Run.run_id (h a)) = Some a) \<and>
     (root \<in> set inserted \<or> (inserted = [] \<and> queue = [root])) \<and>
     set inserted \<union> set queue \<subseteq> descendants h root \<and>
     (\<forall>a \<in> set inserted. \<forall>c \<in> set (Run.child_runs (h a)).
        Run.run_id (h c) \<in> visited \<or> c \<in> set queue)"

section \<open>Concrete runs, trees and hosts\<close>

text \<open>A tree node with the given id, parent id, parent, children and client.\<close>

definition node ::
  "string \<Rightarrow> string option \<Rightarrow> addr option \<Rightarrow> addr list \<Rightarrow> 'w Client option \<Rightarrow> 'w RunTree" where
  "node i pid parent children cl =
     \<lparr> Run.run_id = i, name = ''step'', run_type = ''chain'', start_time = Some 1,
       end_time = None, extra = None, error = None, serialized = None, events = None,
       inputs = Map.empty, outputs = None, reference_example_id = None,
       parent_run_id = pid, tags = None, child_runs = children,
       child_execution_order = 1, dotted_order = None, trace_id = Some ''A'',
       parent_run = parent, client = cl \<rparr>"

text \<open>A run with the given id, parent id and reference example id.\<close>

definition example_run :: "string \<Rightarrow> string option \<Rightarrow> string option \<Rightarrow> Run" where
  "example_run i pid ref =
     \<lparr> Run.run_id = i, name = ''step'', run_type = ''tool'', start_time = Some 10,
       end_time = Some 20, extra = Some [''batch'' \<mapsto> JNum 7], error = None,
       serialized = None, events = Some [], inputs = [''q'' \<mapsto> JStr ''hello''],
       outputs = Some [''a'' \<mapsto> JStr ''world''], reference_example_id = ref,
       parent_run_id = pid, tags = Some [''t''], child_runs = [5],
       child_execution_order = 2, dotted_order = Some ''10.r1'', trace_id = Some ''r1'' \<rparr>"

text \<open>
  Clients whose world is the number of requests received so far: one accepts
  every request, the other rejects every request.
\<close>

definition logging_client :: "string \<Rightarrow> nat Client" where
  "logging_client url =
     \<lparr> apiUrl = url,
       createRun = (\<lambda>p w. (Inr (), Suc w)),
       updateRun = (\<lambda>i u w. (Inr (), Suc w)) \<rparr>"

definition failing_client :: "string \<Rightarrow> nat Client" where
  "failing_client url =
     \<lparr> apiUrl = url,
       createRun = (\<lambda>p w. (Inl (Error ''503 create''), Suc w)),
       updateRun = (\<lambda>i u w. (Inl (Error ''503 update''), Suc w)) \<rparr>"

text \<open>The chain A, B, C at the addresses 0, 1, 2; only A carries a client.\<close>

definition chainABC :: "nat store" where
  "chainABC = (\<lambda>a.
     if a = 0 then node ''A'' None None [1] (Some (logging_client ''https://ambient''))
     else if a = 1 then node ''B'' (Some ''A'') (Some 0) [2] None
     else node ''C'' (Some ''B'') (Some 1) [] None)"

text \<open>
  The same chain with no \<open>parent_run_id\<close> on any node: the nodes are linked
  by \<open>parent_run\<close> and \<open>child_runs\<close> only.
\<close>

definition linkedABC :: "nat store" where
  "linkedABC = (\<lambda>a.
     if a = 0 then node ''A'' None None [1] None
     else if a = 1 then node ''B'' None (Some 0) [2] None
     else node ''C'' None (Some 1) [] None)"

text \<open>
  The malformed tree: the parent of B is C instead of A, and B is among the
  children of C.
\<close>

definition cyclicABC :: "nat store" where
  "cyclicABC = (\<lambda>a.
     if a = 0 then node ''A'' None None [1] None
     else if a = 1 then node ''B'' (Some ''A'') (Some 2) [2] None
     else node ''C'' (Some ''B'') (Some 1) [1] None)"

definition host0 :: "nat Host" where
  "host0 =
     \<lparr> getEnvironmentVariable =
         (\<lambda>k. if k = ''LANGCHAIN_SESSION'' then Some ''default'' else None),
       getCurrentRunTree = Inl (Error ''no run tree''),
       store = chainABC,
       newClient = logging_client ''https://default'',
       getRuntimeEnvironment = JObj [(''library'', JStr ''langchain-js'')] \<rparr>"

definition fields0 :: "nat LangChainTracerFields" where
  "fields0 = \<lparr> LangChainTracerFields.exampleId = Some ''ex1'', projectName = None,
               client = Some (logging_client ''https://explicit'') \<rparr>"

definition tracer0 :: "nat LangChainTracer" where
  "tracer0 = init_fields host0 fields0"

text \<open>Function values: a plain one, and one wrapped by \<open>traceable\<close>.\<close>

datatype example_function = PlainFunction | WrappedFunction

definition example_isTraceableFunction :: "example_function \<Rightarrow> bool" where
  "example_isTraceableFunction f = (f = WrappedFunction)"

section \<open>The two walks of the constructor end\<close>

lemma findRoot_total:
  assumes fin: "finite (run_ids h)"
  shows "\<exists>r. findRoot h visited rootRun = Some r"
proof (induction "card (run_ids h - visited)" arbitrary: visited rootRun rule: less_induct)
  case less
  show ?case
  proof (cases "parent_run (h rootRun)")
    case None
    then show ?thesis by (subst findRoot.simps) simp
  next
    case (Some p)
    show ?thesis
    proof (cases "Run.run_id (h rootRun) \<in> visited")
      case True
      with Some show ?thesis by (subst findRoot.simps) simp
    next
      case False
      have "Run.run_id (h rootRun) \<in> run_ids h - visited"
        using False by (simp add: run_ids_def)
      then have "card (run_ids h - insert (Run.run_id (h rootRun)) visited)
                   < card (run_ids h - visited)"
        using fin by (metis Diff_insert card_Diff1_less finite_Diff)
      from less[OF this] obtain r where
        "findRoot h (insert (Run.run_id (h rootRun)) visited) p = Some r" by blast
      with Some False show ?thesis by (subst findRoot.simps) simp
    qed
  qed
qed

lemma flat_inv_step:
  assumes "flat_inv h visited rmap inserted" and "Run.run_id (h c) \<notin> visited"
  shows "flat_inv h (insert (Run.run_id (h c)) visited)
           (rmap(Run.run_id (h c) \<mapsto> c)) (inserted @ [c])"
  using assms unfolding flat_inv_def by (auto simp: image_iff)

lemma flat_inv_empty: "flat_inv h {} Map.empty []"
  by (simp add: flat_inv_def)

lemma flatten_total:
  assumes fin: "finite (run_ids h)"
  shows "flat_inv h visited rmap inserted \<Longrightarrow>
         \<exists>rmap' inserted' visited'. flatten h visited rmap inserted queue = Some (rmap', inserted') \<and>
            flat_inv h visited' rmap' inserted'"
proof (induction "card (run_ids h - visited)" arbitrary: visited rmap inserted queue rule: less_induct)
  case less
  note outer = less.hyps and inv = less.prems
  show ?case
  proof (induction queue)
    case Nil
    have "flatten h visited rmap inserted [] = Some (rmap, inserted)"
      by (subst flatten.simps) simp
    with inv show ?case by blast
  next
    case (Cons current rest)
    show ?case
    proof (cases "Run.run_id (h current) \<in> visited")
      case True
      then have "flatten h visited rmap inserted (current # rest) = flatten h visited rmap inserted rest"
        by (subst flatten.simps) simp
      with Cons.IH show ?thesis by simp
    next
      case False
      have "Run.run_id (h current) \<in> run_ids h - visited"
        using False by (simp add: run_ids_def)
      then have dec: "card (run_ids h - insert (Run.run_id (h current)) visited)
                        < card (run_ids h - visited)"
        using fin by (metis Diff_insert card_Diff1_less finite_Diff)
      have step: "flatten h visited rmap inserted (current # rest) =
          flatten h (insert (Run.run_id (h current)) visited)
            (rmap(Run.run_id (h current) \<mapsto> current))
            (inserted @ [current]) (rest @ Run.child_runs (h current))"
        using False by (subst flatten.simps) simp
      show ?thesis
        unfolding step by (rule outer[OF dec flat_inv_step[OF inv False]])
    qed
  qed
qed

text \<open>
  With an ambient node, and a store of finitely many ids, the constructor
  returns: its result is the initial tracer with the run map of the
  breadth-first walk and the client of the last assignment.
\<close>

lemma constructor_found:
  assumes fin: "finite (run_ids (store host))"
    and probe: "getTraceableRunTree host = Some n"
  shows "\<exists>rootRun rmap inserted.
           findRoot (store host) {} n = Some rootRun \<and>
           flatten (store host) {} Map.empty [] [rootRun] = Some (rmap, inserted) \<and>
           LangChainTracer_constructor host flds =
             Some ((init_fields host flds)\<lparr> runMap := rmap,
                     client := nullish (RunTree.client (store host n))
                                 (LangChainTracer.client (init_fields host flds)) \<rparr>)"
proof -
  obtain rootRun where r: "findRoot (store host) {} n = Some rootRun"
    using findRoot_total[OF fin] by blast
  obtain rmap inserted where
    f: "flatten (store host) {} Map.empty [] [rootRun] = Some (rmap, inserted)"
    using flatten_total[OF fin flat_inv_empty] by blast
  have rm: "runMap (init_fields host flds) = Map.empty"
    by (simp add: init_fields_def BaseTracer_runMap_def)
  have "LangChainTracer_constructor host flds =
          Some ((init_fields host flds)\<lparr> runMap := rmap,
                  client := nullish (RunTree.client (store host n))
                              (LangChainTracer.client (init_fields host flds)) \<rparr>)"
    by (simp add: LangChainTracer_constructor_def Let_def probe r rm f)
  with r f show ?thesis by blast
qed

lemma constructor_not_found:
  assumes "getTraceableRunTree host = None"
  shows "LangChainTracer_constructor host flds = Some (init_fields host flds)"
  using assms by (simp add: LangChainTracer_constructor_def Let_def)

lemma finite_run_ids_chainABC: "finite (run_ids chainABC)"
proof -
  have "run_ids chainABC \<subseteq> {''A'', ''B'', ''C''}"
    by (auto simp: run_ids_def chainABC_def node_def split: if_splits)
  then show ?thesis by (rule finite_subset) simp
qed

lemma finite_run_ids_cyclicABC: "finite (run_ids cyclicABC)"
proof -
  have "run_ids cyclicABC \<subseteq> {''A'', ''B'', ''C''}"
    by (auto simp: run_ids_def cyclicABC_def node_def split: if_splits)
  then show ?thesis by (rule finite_subset) simp
qed

text \<open>
  The two walks on the malformed tree, from C: the upward walk goes C, B, C
  and stops at C; the breadth-first walk inserts C, then B, and skips the second C.
  A is not reached.
\<close>

lemma findRoot_cyclicABC: "findRoot cyclicABC {} 2 = Some 2"
proof -
  have 1: "findRoot cyclicABC {} 2 = findRoot cyclicABC {''C''} 1"
    by (subst findRoot.simps) (simp add: cyclicABC_def node_def)
  have 2: "findRoot cyclicABC {''C''} 1 = findRoot cyclicABC {''B'', ''C''} 2"
    by (subst findRoot.simps) (simp add: cyclicABC_def node_def)
  have 3: "findRoot cyclicABC {''B'', ''C''} 2 = Some 2"
    by (subst findRoot.simps) (simp add: cyclicABC_def node_def)
  show ?thesis by (simp only: 1 2 3)
qed

lemma flatten_cyclicABC:
  "flatten cyclicABC {} Map.empty [] [2] = Some ([''C'' \<mapsto> 2, ''B'' \<mapsto> 1], [2, 1])"
proof -
  have 1: "flatten cyclicABC {} Map.empty [] [2] = flatten cyclicABC {''C''} [''C'' \<mapsto> 2] [2] [1]"
    by (subst flatten.simps) (simp add: cyclicABC_def node_def)
  have 2: "flatten cyclicABC {''C''} [''C'' \<mapsto> 2] [2] [1] =
           flatten cyclicABC {''B'', ''C''} [''C'' \<mapsto> 2, ''B'' \<mapsto> 1] [2, 1] [2]"
    by (subst flatten.simps) (simp add: cyclicABC_def node_def)
  have 3: "flatten cyclicABC {''B'', ''C''} [''C'' \<mapsto> 2, ''B'' \<mapsto> 1] [2, 1] [2] =
           flatten cyclicABC {''B'', ''C''} [''C'' \<mapsto> 2, ''B'' \<mapsto> 1] [2, 1] []"
    by (subst flatten.simps) (simp add: cyclicABC_def node_def)
  have 4: "flatten cyclicABC {''B'', ''C''} [''C'' \<mapsto> 2, ''B'' \<mapsto> 1] [2, 1] [] =
           Some ([''C'' \<mapsto> 2, ''B'' \<mapsto> 1], [2, 1])"
    by (subst flatten.simps) simp
  show ?thesis by (simp only: 1 2 3 4)
qed

text \<open>
  Where the upward walk stops: it returns a node \<open>r\<close> that \<open>parent_run\<close>
  leads to, the nodes left behind have different ids, none of them in
  \<open>visited\<close>, and \<open>r\<close> has no parent or has an id seen before.
\<close>

lemma findRoot_post:
  assumes fin: "finite (run_ids h)"
  shows "\<exists>r path. findRoot h visited n = Some r \<and> parent_chain h n path r \<and>
           distinct (map (\<lambda>a. Run.run_id (h a)) path) \<and>
           (\<lambda>a. Run.run_id (h a)) ` set path \<inter> visited = {} \<and>
           (parent_run (h r) = None \<or>
            Run.run_id (h r) \<in> visited \<union> (\<lambda>a. Run.run_id (h a)) ` set path)"
proof (induction "card (run_ids h - visited)" arbitrary: visited n rule: less_induct)
  case less
  show ?case
  proof (cases "parent_run (h n)")
    case None
    then have "findRoot h visited n = Some n" by (subst findRoot.simps) simp
    with None have "findRoot h visited n = Some n \<and> parent_chain h n [] n \<and>
        distinct (map (\<lambda>a. Run.run_id (h a)) []) \<and>
        (\<lambda>a. Run.run_id (h a)) ` set [] \<inter> visited = {} \<and>
        (parent_run (h n) = None \<or>
         Run.run_id (h n) \<in> visited \<union> (\<lambda>a. Run.run_id (h a)) ` set [])"
      by simp
    then show ?thesis by blast
  next
    case (Some p)
    show ?thesis
    proof (cases "Run.run_id (h n) \<in> visited")
      case True
      with Some have "findRoot h visited n = Some n" by (subst findRoot.simps) simp
      with True have "findRoot h visited n = Some n \<and> parent_chain h n [] n \<and>
          distinct (map (\<lambda>a. Run.run_id (h a)) []) \<and>
          (\<lambda>a. Run.run_id (h a)) ` set [] \<inter> visited = {} \<and>
          (parent_run (h n) = None \<or>
           Run.run_id (h n) \<in> visited \<union> (\<lambda>a. Run.run_id (h a)) ` set [])"
        by simp
      then show ?thesis by blast
    next
      case False
      let ?v = "insert (Run.run_id (h n)) visited"
      have "Run.run_id (h n) \<in> run_ids h - visited"
        using False by (simp add: run_ids_def)
      then have "card (run_ids h - ?v) < card (run_ids h - visited)"
        using fin by (metis Diff_insert card_Diff1_less finite_Diff)
      from less[OF this, of p] obtain r path where
        r: "findRoot h ?v p = Some r" and
        pc: "parent_chain h p path r" and
        d: "distinct (map (\<lambda>a. Run.run_id (h a)) path)" and
        dj: "(\<lambda>a. Run.run_id (h a)) ` set path \<inter> ?v = {}" and
        st: "parent_run (h r) = None \<or>
             Run.run_id (h r) \<in> ?v \<union> (\<lambda>a. Run.run_id (h a)) ` set path"
        by blast
      have 1: "findRoot h visited n = Some r"
        using Some False r by (subst findRoot.simps) simp
      have 2: "parent_chain h n (n # path) r" using Some pc by simp
      have 3: "distinct (map (\<lambda>a. Run.run_id (h a)) (n # path))" using d dj by auto
      have 4: "(\<lambda>a. Run.run_id (h a)) ` set (n # path) \<inter> visited = {}"
        using dj False by auto
      have 5: "parent_run (h r) = None \<or>
               Run.run_id (h r) \<in> visited \<union> (\<lambda>a. Run.run_id (h a)) ` set (n # path)"
        using st by auto
      from 1 2 3 4 5 show ?thesis by blast
    qed
  qed
qed

lemma walk_inv_init: "walk_inv h root {} Map.empty [] [root]"
  by (simp add: walk_inv_def descendants.self)

lemma walk_inv_skip:
  assumes "walk_inv h root visited rmap inserted (c # rest)"
    and "Run.run_id (h c) \<in> visited"
  shows "walk_inv h root visited rmap inserted rest"
proof -
  have v: "visited = (\<lambda>a. Run.run_id (h a)) ` set inserted"
    and ne: "inserted \<noteq> []"
    using assms by (auto simp: walk_inv_def)
  have r: "root \<in> set inserted"
    using assms(1) ne by (simp add: walk_inv_def)
  have cl: "\<forall>a \<in> set inserted. \<forall>x \<in> set (Run.child_runs (h a)).
              Run.run_id (h x) \<in> visited \<or> x \<in> set (c # rest)"
    using assms(1) unfolding walk_inv_def by blast
  have cl': "\<forall>a \<in> set inserted. \<forall>x \<in> set (Run.child_runs (h a)).
              Run.run_id (h x) \<in> visited \<or> x \<in> set rest"
  proof (intro ballI)
    fix a x assume "a \<in> set inserted" and "x \<in> set (Run.child_runs (h a))"
    with cl have "Run.run_id (h x) \<in> visited \<or> x \<in> set (c # rest)" by blast
    with assms(2) show "Run.run_id (h x) \<in> visited \<or> x \<in> set rest" by auto
  qed
  have rest: "distinct (map (\<lambda>a. Run.run_id (h a)) inserted)" "dom rmap = visited"
      "\<forall>a \<in> set inserted. rmap (Run.run_id (h a)) = Some a"
      "set inserted \<union> set rest \<subseteq> descendants h root"
    using assms(1) unfolding walk_inv_def by auto
  show ?thesis
    unfolding walk_inv_def using v r cl' rest by blast
qed

lemma walk_inv_step:
  assumes inv: "walk_inv h root visited rmap inserted (c # rest)"
    and new: "Run.run_id (h c) \<notin> visited"
  shows "walk_inv h root (insert (Run.run_id (h c)) visited) (rmap(Run.run_id (h c) \<mapsto> c))
           (inserted @ [c]) (rest @ Run.child_runs (h c))"
proof -
  have c: "c \<in> descendants h root" using inv by (simp add: walk_inv_def)
  then have ch: "set (Run.child_runs (h c)) \<subseteq> descendants h root"
    by (auto intro: descendants.child)
  have v: "visited = (\<lambda>a. Run.run_id (h a)) ` set inserted"
    using inv by (simp add: walk_inv_def)
  have ne: "\<And>a. a \<in> set inserted \<Longrightarrow> Run.run_id (h a) \<noteq> Run.run_id (h c)"
    using new v by (metis image_eqI)
  show ?thesis
    unfolding walk_inv_def
  proof (intro conjI)
    show "insert (Run.run_id (h c)) visited = (\<lambda>a. Run.run_id (h a)) ` set (inserted @ [c])"
      using v by auto
    show "distinct (map (\<lambda>a. Run.run_id (h a)) (inserted @ [c]))"
      using inv new v by (auto simp: walk_inv_def)
    show "dom (rmap(Run.run_id (h c) \<mapsto> c)) = insert (Run.run_id (h c)) visited"
      using inv by (simp add: walk_inv_def)
    show "\<forall>a \<in> set (inserted @ [c]). (rmap(Run.run_id (h c) \<mapsto> c)) (Run.run_id (h a)) = Some a"
      using inv ne by (auto simp: walk_inv_def)
    show "root \<in> set (inserted @ [c]) \<or> (inserted @ [c] = [] \<and> rest @ Run.child_runs (h c) = [root])"
      using inv by (auto simp: walk_inv_def)
    show "set (inserted @ [c]) \<union> set (rest @ Run.child_runs (h c)) \<subseteq> descendants h root"
      using inv c ch by (auto simp: walk_inv_def)
    show "\<forall>a \<in> set (inserted @ [c]). \<forall>x \<in> set (Run.child_runs (h a)).
            Run.run_id (h x) \<in> insert (Run.run_id (h c)) visited \<or>
            x \<in> set (rest @ Run.child_runs (h c))"
    proof (intro ballI)
      fix a x assume a: "a \<in> set (inserted @ [c])" and x: "x \<in> set (Run.child_runs (h a))"
      show "Run.run_id (h x) \<in> insert (Run.run_id (h c)) visited \<or>
            x \<in> set (rest @ Run.child_runs (h c))"
      proof (cases "a = c")
        case True
        with x show ?thesis by simp
      next
        case False
        with a have ai: "a \<in> set inserted" by simp
        have "\<forall>a \<in> set inserted. \<forall>x \<in> set (Run.child_runs (h a)).
                Run.run_id (h x) \<in> visited \<or> x \<in> set (c # rest)"
          using inv unfolding walk_inv_def by blast
        with ai x have "Run.run_id (h x) \<in> visited \<or> x \<in> set (c # rest)" by blast
        then show ?thesis by auto
      qed
    qed
  qed
qed

text \<open>
  The breadth-first walk returns, and the state it returns from is consistent
  with an empty queue.
\<close>

lemma flatten_post:
  assumes fin: "finite (run_ids h)"
  shows "walk_inv h root visited rmap inserted queue \<Longrightarrow>
         \<exists>rmap' inserted'. flatten h visited rmap inserted queue = Some (rmap', inserted') \<and>
            walk_inv h root (dom rmap') rmap' inserted' []"
proof (induction "card (run_ids h - visited)" arbitrary: visited rmap inserted queue
         rule: less_induct)
  case less
  note outer = less.hyps
  from less.prems show ?case
  proof (induction queue)
    case Nil
    have "flatten h visited rmap inserted [] = Some (rmap, inserted)"
      by (subst flatten.simps) simp
    moreover have "dom rmap = visited" using Nil by (simp add: walk_inv_def)
    ultimately show ?case using Nil by simp
  next
    case (Cons current rest)
    show ?case
    proof (cases "Run.run_id (h current) \<in> visited")
      case True
      then have "flatten h visited rmap inserted (current # rest)
                   = flatten h visited rmap inserted rest"
        by (subst flatten.simps) simp
      with Cons.IH[OF walk_inv_skip[OF Cons.prems True]] show ?thesis by simp
    next
      case False
      have "Run.run_id (h current) \<in> run_ids h - visited"
        using False by (simp add: run_ids_def)
      then have dec: "card (run_ids h - insert (Run.run_id (h current)) visited)
                        < card (run_ids h - visited)"
        using fin by (metis Diff_insert card_Diff1_less finite_Diff)
      have step: "flatten h visited rmap inserted (current # rest) =
          flatten h (insert (Run.run_id (h current)) visited)
            (rmap(Run.run_id (h current) \<mapsto> current))
            (inserted @ [current]) (rest @ Run.child_runs (h current))"
        using False by (subst flatten.simps) simp
      show ?thesis
        unfolding step by (rule outer[OF dec walk_inv_step[OF Cons.prems False]])
    qed
  qed
qed

text \<open>
  When the nodes below \<open>root\<close> have different ids, the walk inserts all of them.
\<close>

lemma walk_inv_complete:
  assumes inv: "walk_inv h root visited rmap inserted []"
    and inj: "inj_on (\<lambda>a. Run.run_id (h a)) (descendants h root)"
  shows "set inserted = descendants h root"
proof
  show "set inserted \<subseteq> descendants h root" using inv by (simp add: walk_inv_def)
  show "descendants h root \<subseteq> set inserted"
  proof
    fix x assume "x \<in> descendants h root"
    then show "x \<in> set inserted"
    proof (induction rule: descendants.induct)
      case self
      show ?case using inv by (simp add: walk_inv_def)
    next
      case (child a c)
      have "\<forall>a \<in> set inserted. \<forall>x \<in> set (Run.child_runs (h a)).
              Run.run_id (h x) \<in> visited \<or> x \<in> set []"
        using inv unfolding walk_inv_def by blast
      with child.IH child.hyps(2) have "Run.run_id (h c) \<in> visited" by auto
      moreover have "visited = (\<lambda>a. Run.run_id (h a)) ` set inserted"
        using inv unfolding walk_inv_def by blast
      ultimately obtain y where y: "y \<in> set inserted" "Run.run_id (h y) = Run.run_id (h c)"
        by auto
      from inv y(1) have "y \<in> descendants h root" by (auto simp: walk_inv_def)
      moreover have "c \<in> descendants h root"
        using child.hyps by (rule descendants.child)
      ultimately have "y = c" using inj y(2) by (auto dest: inj_onD)
      with y(1) show ?case by simp
    qed
  qed
qed

text \<open>
  C5.  For every store with finitely many run ids, cyclic or not, and every
  node the probe may return, both walks return, and so does the constructor.
  What bounds them is \<open>visited\<close>, not a count of iterations.  The upward walk
  follows \<open>parent_run\<close> over nodes of different ids and stops only at a node
  that has no parent or whose id it has seen before.  The breadth-first walk
  calls \<open>runMap.set\<close> at most once for a node and at most once for an id, so at
  most as many times as there are ids; it inserts the root, inserts only nodes
  that \<open>child_runs\<close> leads to from the root, and stops only when the id of
  every child of an inserted node is in the run map; the run map it returns
  holds exactly the nodes it inserted, each under its id.  When the nodes below
  the root have different ids, it inserts every one of them.
\<close>

theorem constructor_walks_terminate:
  assumes fin: "finite (run_ids (store host))"
    and probe: "getCurrentRunTree host = Inr (Some n)"
  shows "\<exists>rootRun path rmap inserted t.
           findRoot (store host) {} n = Some rootRun \<and>
           parent_chain (store host) n path rootRun \<and>
           distinct (map (\<lambda>a. Run.run_id (store host a)) path) \<and>
           (parent_run (store host rootRun) = None \<or>
            Run.run_id (store host rootRun) \<in> (\<lambda>a. Run.run_id (store host a)) ` set path) \<and>
           flatten (store host) {} Map.empty [] [rootRun] = Some (rmap, inserted) \<and>
           LangChainTracer_constructor host flds = Some t \<and> runMap t = rmap \<and>
           distinct inserted \<and>
           distinct (map (\<lambda>a. Run.run_id (store host a)) inserted) \<and>
           length inserted \<le> card (run_ids (store host)) \<and>
           dom rmap = (\<lambda>a. Run.run_id (store host a)) ` set inserted \<and>
           (\<forall>a \<in> set inserted. rmap (Run.run_id (store host a)) = Some a) \<and>
           rootRun \<in> set inserted \<and>
           set inserted \<subseteq> descendants (store host) rootRun \<and>
           (\<forall>a \<in> set inserted. \<forall>c \<in> set (Run.child_runs (store host a)).
              Run.run_id (store host c) \<in> dom rmap) \<and>
           (inj_on (\<lambda>a. Run.run_id (store host a)) (descendants (store host) rootRun) \<longrightarrow>
              set inserted = descendants (store host) rootRun)"
proof -
  let ?h = "store host"
  have p: "getTraceableRunTree host = Some n"
    by (simp add: getTraceableRunTree_def probe)
  from findRoot_post[OF fin, of "{}" n] obtain rootRun path where
    r: "findRoot ?h {} n = Some rootRun" and
    pc: "parent_chain ?h n path rootRun" and
    pd: "distinct (map (\<lambda>a. Run.run_id (?h a)) path)" and
    st: "parent_run (?h rootRun) = None \<or>
         Run.run_id (?h rootRun) \<in> (\<lambda>a. Run.run_id (?h a)) ` set path"
    by auto
  from flatten_post[OF fin walk_inv_init, of rootRun] obtain rmap inserted where
    f: "flatten ?h {} Map.empty [] [rootRun] = Some (rmap, inserted)" and
    inv: "walk_inv ?h rootRun (dom rmap) rmap inserted []"
    by blast
  have rm: "runMap (init_fields host flds) = Map.empty"
    by (simp add: init_fields_def BaseTracer_runMap_def)
  have c: "LangChainTracer_constructor host flds =
          Some ((init_fields host flds)\<lparr> runMap := rmap,
                  client := nullish (RunTree.client (?h n))
                              (LangChainTracer.client (init_fields host flds)) \<rparr>)"
    by (simp add: LangChainTracer_constructor_def Let_def p r rm f)
  have d: "distinct (map (\<lambda>a. Run.run_id (?h a)) inserted)"
    and dm: "dom rmap = (\<lambda>a. Run.run_id (?h a)) ` set inserted"
    and lk: "\<forall>a \<in> set inserted. rmap (Run.run_id (?h a)) = Some a"
    and ri: "rootRun \<in> set inserted"
    and ds: "set inserted \<subseteq> descendants ?h rootRun"
    using inv by (simp_all add: walk_inv_def)
  have "\<forall>a \<in> set inserted. \<forall>c \<in> set (Run.child_runs (?h a)).
          Run.run_id (?h c) \<in> dom rmap \<or> c \<in> set []"
    using inv unfolding walk_inv_def by blast
  then have cl: "\<forall>a \<in> set inserted. \<forall>c \<in> set (Run.child_runs (?h a)).
                   Run.run_id (?h c) \<in> dom rmap"
    by simp
  have di: "distinct inserted" using d by (simp add: distinct_map)
  have "length inserted = card ((\<lambda>a. Run.run_id (?h a)) ` set inserted)"
    using d by (metis distinct_card length_map set_map)
  moreover have "(\<lambda>a. Run.run_id (?h a)) ` set inserted \<subseteq> run_ids ?h"
    by (auto simp: run_ids_def)
  ultimately have le: "length inserted \<le> card (run_ids ?h)"
    using fin by (simp add: card_mono)
  have co: "inj_on (\<lambda>a. Run.run_id (?h a)) (descendants ?h rootRun) \<longrightarrow>
            set inserted = descendants ?h rootRun"
    using walk_inv_complete[OF inv] by blast
  from r pc pd st f c di d le dm lk ri ds cl co show ?thesis
    by (intro exI[of _ rootRun] exI[of _ path] exI[of _ rmap] exI[of _ inserted]
          exI[of _ "(init_fields host flds)\<lparr> runMap := rmap,
                  client := nullish (RunTree.client (?h n))
                              (LangChainTracer.client (init_fields host flds)) \<rparr>"]) simp
qed

theorem constructor_walks_terminate_witness:
  "finite (run_ids (store (host0\<lparr>getCurrentRunTree := Inr (Some 2), store := cyclicABC\<rparr>))) \<and>
   (\<exists>path rmap inserted t.
      findRoot cyclicABC {} 2 = Some 2 \<and> parent_chain cyclicABC 2 path 2 \<and>
      flatten cyclicABC {} Map.empty [] [2] = Some (rmap, inserted) \<and>
      LangChainTracer_constructor
        (host0\<lparr>getCurrentRunTree := Inr (Some 2), store := cyclicABC\<rparr>) fields0 = Some t \<and>
      runMap t = rmap \<and> inserted = [2, 1] \<and> distinct inserted \<and>
      length inserted \<le> card (run_ids cyclicABC) \<and> dom rmap = {''B'', ''C''} \<and>
      2 \<in> set inserted \<and> set inserted \<subseteq> descendants cyclicABC 2)"
proof -
  let ?host = "host0\<lparr>getCurrentRunTree := Inr (Some 2), store := cyclicABC\<rparr>"
  have fin: "finite (run_ids (store ?host))" by (simp add: finite_run_ids_cyclicABC)
  have probe: "getCurrentRunTree ?host = Inr (Some 2)" by simp
  from constructor_walks_terminate[OF fin probe, of fields0] fin show ?thesis
    by (auto simp: findRoot_cyclicABC flatten_cyclicABC)
qed

section \<open>Hydration of the run map from the ambient tree\<close>

lemma findRoot_chain3:
  assumes "chain3 h a b c" and "n \<in> {a, b, c}"
  shows "findRoot h {} n = Some a"
proof -
  have A: "\<And>v. findRoot h v a = Some a"
    using assms(1) by (subst findRoot.simps) (simp add: chain3_def)
  have B: "\<And>v. Run.run_id (h b) \<notin> v \<Longrightarrow> findRoot h v b = Some a"
    using assms(1) by (subst findRoot.simps) (simp add: chain3_def A)
  have C: "findRoot h {} c = Some a"
    using assms(1) by (subst findRoot.simps) (simp add: chain3_def B)
  from assms(2) A B C show ?thesis by auto
qed

lemma flatten_chain3:
  assumes "chain3 h a b c"
  shows "flatten h {} Map.empty [] [a] =
         Some ([Run.run_id (h a) \<mapsto> a, Run.run_id (h b) \<mapsto> b, Run.run_id (h c) \<mapsto> c],
               [a, b, c])"
proof -
  let ?ia = "Run.run_id (h a)" and ?ib = "Run.run_id (h b)" and ?ic = "Run.run_id (h c)"
  have d: "?ia \<noteq> ?ib" "?ib \<noteq> ?ia" "?ia \<noteq> ?ic" "?ic \<noteq> ?ia" "?ib \<noteq> ?ic" "?ic \<noteq> ?ib"
    using assms by (auto simp: chain3_def)
  have ch: "Run.child_runs (h a) = [b]" "Run.child_runs (h b) = [c]" "Run.child_runs (h c) = []"
    using assms by (simp_all add: chain3_def)
  have 1: "flatten h {} Map.empty [] [a] = flatten h {?ia} [?ia \<mapsto> a] [a] [b]"
    by (subst flatten.simps) (simp add: ch)
  have 2: "flatten h {?ia} [?ia \<mapsto> a] [a] [b] =
           flatten h {?ib, ?ia} [?ia \<mapsto> a, ?ib \<mapsto> b] [a, b] [c]"
    by (subst flatten.simps) (simp add: ch d)
  have 3: "flatten h {?ib, ?ia} [?ia \<mapsto> a, ?ib \<mapsto> b] [a, b] [c] =
           flatten h {?ic, ?ib, ?ia} [?ia \<mapsto> a, ?ib \<mapsto> b, ?ic \<mapsto> c] [a, b, c] []"
    by (subst flatten.simps) (simp add: ch d)
  have 4: "flatten h {?ic, ?ib, ?ia} [?ia \<mapsto> a, ?ib \<mapsto> b, ?ic \<mapsto> c] [a, b, c] [] =
           Some ([?ia \<mapsto> a, ?ib \<mapsto> b, ?ic \<mapsto> c], [a, b, c])"
    by (subst flatten.simps) simp
  show ?thesis by (simp only: 1 2 3 4)
qed

text \<open>
  On a chain, whichever of the three nodes the probe returns, the constructor
  returns the initial tracer with the three nodes in the run map and the
  client of the last assignment.
\<close>

lemma constructor_chain3:
  assumes ch: "chain3 (store host) a b c"
    and probe: "getCurrentRunTree host = Inr (Some n)"
    and n: "n \<in> {a, b, c}"
  shows "LangChainTracer_constructor host flds =
        Some ((init_fields host flds)\<lparr> runMap := [Run.run_id (store host a) \<mapsto> a,
                 Run.run_id (store host b) \<mapsto> b, Run.run_id (store host c) \<mapsto> c],
               client := nullish (RunTree.client (store host n))
                           (LangChainTracer.client (init_fields host flds)) \<rparr>)"
  by (simp add: LangChainTracer_constructor_def getTraceableRunTree_def probe
        findRoot_chain3[OF ch n] init_fields_def BaseTracer_runMap_def flatten_chain3[OF ch])

text \<open>
  C4, as stated, fails on a chain whose nodes are linked by \<open>parent_run\<close> and
  \<open>child_runs\<close> and carry no \<open>parent_run_id\<close>: the constructor returns, the
  run map is hydrated, \<open>getRun\<close> of B's id is the node B, and the
  \<open>parent_run_id\<close> of that node is \<open>undefined\<close>, not A's id.  The constructor
  stores each ambient node as it is and derives nothing from \<open>parent_run\<close>.
\<close>

theorem getRun_parent_run_id_not_derived_counterexample:
  "chain3 (store (host0\<lparr>getCurrentRunTree := Inr (Some 2), store := linkedABC\<rparr>)) 0 1 2 \<and>
   LangChainTracer_constructor
     (host0\<lparr>getCurrentRunTree := Inr (Some 2), store := linkedABC\<rparr>) fields0 \<noteq> None \<and>
   getRun (the (LangChainTracer_constructor
                  (host0\<lparr>getCurrentRunTree := Inr (Some 2), store := linkedABC\<rparr>) fields0))
     (Run.run_id (linkedABC 1)) = Some 1 \<and>
   Run.parent_run_id (linkedABC 1) = None \<and>
   Run.parent_run_id (linkedABC 1) \<noteq> Some (Run.run_id (linkedABC 0))"
proof -
  let ?host = "host0\<lparr>getCurrentRunTree := Inr (Some 2), store := linkedABC\<rparr>"
  have ch: "chain3 (store ?host) 0 1 2"
    by (simp add: chain3_def linkedABC_def node_def)
  have pr: "getCurrentRunTree ?host = Inr (Some 2)" by simp
  have n: "(2::nat) \<in> {0, 1, 2}" by simp
  have d: "Run.run_id (linkedABC 1) \<noteq> Run.run_id (linkedABC 2)"
    and p: "Run.parent_run_id (linkedABC 1) = None"
    by (simp_all add: linkedABC_def node_def)
  from constructor_chain3[OF ch pr n, of fields0] ch d p show ?thesis
    by (simp add: getRun_def)
qed

text \<open>
  C4, amended.  If the ambient tree is the chain \<open>a\<close>, \<open>b\<close>, \<open>c\<close> (linked by
  \<open>child_runs\<close> and \<open>parent_run\<close>) and the probe returns one of the three
  nodes, the constructor returns a tracer whose run map has exactly the three
  ids as keys, each mapped to its own node, and \<open>getRun\<close> of the id of \<open>b\<close> is
  the node \<open>b\<close> as the ambient tree holds it: the \<open>parent_run_id\<close> read through
  \<open>getRun\<close> is the one that node carries, so it is the id of \<open>a\<close> exactly when
  the ambient node \<open>b\<close> carries the id of \<open>a\<close>.
\<close>

theorem hydrate_chain3:
  assumes ch: "chain3 (store host) a b c"
    and probe: "getCurrentRunTree host = Inr (Some n)"
    and n: "n \<in> {a, b, c}"
  shows "\<exists>t. LangChainTracer_constructor host flds = Some t \<and>
           dom (runMap t) =
             {Run.run_id (store host a), Run.run_id (store host b), Run.run_id (store host c)} \<and>
           runMap t (Run.run_id (store host a)) = Some a \<and>
           runMap t (Run.run_id (store host b)) = Some b \<and>
           runMap t (Run.run_id (store host c)) = Some c \<and>
           getRun t (Run.run_id (store host b)) = Some b \<and>
           map_option (\<lambda>r. Run.parent_run_id (store host r)) (getRun t (Run.run_id (store host b)))
             = Some (Run.parent_run_id (store host b)) \<and>
           (map_option (\<lambda>r. Run.parent_run_id (store host r)) (getRun t (Run.run_id (store host b)))
              = Some (Some (Run.run_id (store host a)))
            \<longleftrightarrow> Run.parent_run_id (store host b) = Some (Run.run_id (store host a)))"
proof -
  have d: "Run.run_id (store host a) \<noteq> Run.run_id (store host b)"
      "Run.run_id (store host a) \<noteq> Run.run_id (store host c)"
      "Run.run_id (store host b) \<noteq> Run.run_id (store host c)"
    using ch by (simp_all add: chain3_def)
  from constructor_chain3[OF ch probe n, of flds] show ?thesis
    using d by (auto simp: getRun_def)
qed

theorem hydrate_chain3_witness:
  "chain3 (store (host0\<lparr>getCurrentRunTree := Inr (Some 2)\<rparr>)) 0 1 2 \<and>
   (\<exists>t. LangChainTracer_constructor (host0\<lparr>getCurrentRunTree := Inr (Some 2)\<rparr>) fields0 = Some t \<and>
      dom (runMap t) = {''A'', ''B'', ''C''} \<and> getRun t ''A'' = Some 0 \<and>
      getRun t ''B'' = Some 1 \<and> getRun t ''C'' = Some 2 \<and>
      map_option (\<lambda>r. Run.parent_run_id (chainABC r)) (getRun t ''B'') = Some (Some ''A''))"
proof -
  let ?host = "host0\<lparr>getCurrentRunTree := Inr (Some 2)\<rparr>"
  have ch: "chain3 (store ?host) 0 1 2"
    by (simp add: host0_def chain3_def chainABC_def node_def)
  have pr: "getCurrentRunTree ?host = Inr (Some 2)" by simp
  have n: "(2::nat) \<in> {0, 1, 2}" by simp
  from hydrate_chain3[OF ch pr n, of fields0] ch show ?thesis
    by (auto simp: host0_def chainABC_def node_def getRun_def)
qed

section \<open>No ambient tree\<close>

text \<open>
  C6.  If the probe throws, or returns \<open>undefined\<close>, the constructor returns
  a tracer (the model of the constructor has no failing outcome: the only
  call that can throw is inside \<open>try\<close>), its run map is empty, and
  \<open>getRun\<close> of every id is \<open>undefined\<close>.
\<close>

theorem constructor_without_ambient_tree:
  assumes "getCurrentRunTree host = Inl e \<or> getCurrentRunTree host = Inr None"
  shows "\<exists>t. LangChainTracer_constructor host flds = Some t \<and>
           runMap t = Map.empty \<and> (\<forall>i. getRun t i = None)"
proof -
  have "getTraceableRunTree host = None"
    using assms by (auto simp: getTraceableRunTree_def)
  then have "LangChainTracer_constructor host flds = Some (init_fields host flds)"
    by (rule constructor_not_found)
  then show ?thesis
    by (simp add: init_fields_def BaseTracer_runMap_def getRun_def)
qed

theorem constructor_without_ambient_tree_witness:
  "(getCurrentRunTree host0 = Inl (Error ''no run tree'') \<or> getCurrentRunTree host0 = Inr None) \<and>
   (\<exists>t. LangChainTracer_constructor host0 fields0 = Some t \<and>
      runMap t = Map.empty \<and> getRun t ''A'' = None) \<and>
   (\<exists>t. LangChainTracer_constructor (host0\<lparr>getCurrentRunTree := Inr None\<rparr>) fields0 = Some t \<and>
      runMap t = Map.empty \<and> getRun t ''A'' = None)"
proof -
  have 1: "getCurrentRunTree host0 = Inl (Error ''no run tree'') \<or> getCurrentRunTree host0 = Inr None"
    by (simp add: host0_def)
  have 2: "getCurrentRunTree (host0\<lparr>getCurrentRunTree := Inr None\<rparr>) = Inl (Error ''no run tree'') \<or>
           getCurrentRunTree (host0\<lparr>getCurrentRunTree := Inr None\<rparr>) = Inr None"
    by simp
  from constructor_without_ambient_tree[OF 1, of fields0]
       constructor_without_ambient_tree[OF 2, of fields0] 1
  show ?thesis by auto
qed

section \<open>Client adoption\<close>

text \<open>
  C7.  The constructor returns a tracer (the store has finitely many ids).
  Its client is the client of the node the probe returned, when there is such
  a node and it carries a client; otherwise it is the client the tracer had
  before the ambient tree was looked for, that is \<open>fields.client\<close>, or
  \<open>new Client({})\<close> when \<open>fields.client\<close> is \<open>undefined\<close>.
\<close>

theorem constructor_adopts_ambient_client:
  assumes fin: "finite (run_ids (store host))"
  shows "\<exists>t. LangChainTracer_constructor host flds = Some t \<and>
           LangChainTracer.client t =
             (case getTraceableRunTree host of
                None \<Rightarrow> nullish (LangChainTracerFields.client flds) (newClient host)
              | Some n \<Rightarrow>
                  (case RunTree.client (store host n) of
                     None \<Rightarrow> nullish (LangChainTracerFields.client flds) (newClient host)
                   | Some c \<Rightarrow> c))"
proof (cases "getTraceableRunTree host")
  case None
  then show ?thesis
    by (simp add: constructor_not_found init_fields_def)
next
  case (Some n)
  from constructor_found[OF fin Some, of flds] obtain t where
    t: "LangChainTracer_constructor host flds = Some t" and
    c: "LangChainTracer.client t = nullish (RunTree.client (store host n))
                                     (LangChainTracer.client (init_fields host flds))"
    by auto
  show ?thesis using t c Some
    by (cases "RunTree.client (store host n)") (simp_all add: nullish_def init_fields_def)
qed

theorem constructor_adopts_ambient_client_witness:
  "finite (run_ids (store (host0\<lparr>getCurrentRunTree := Inr (Some 0)\<rparr>))) \<and>
   (\<exists>t. LangChainTracer_constructor (host0\<lparr>getCurrentRunTree := Inr (Some 0)\<rparr>)
           (fields0\<lparr>LangChainTracerFields.client := None\<rparr>) = Some t \<and>
      LangChainTracer.client t = logging_client ''https://ambient'') \<and>
   (\<exists>t. LangChainTracer_constructor (host0\<lparr>getCurrentRunTree := Inr (Some 1)\<rparr>)
           (fields0\<lparr>LangChainTracerFields.client := None\<rparr>) = Some t \<and>
      LangChainTracer.client t = logging_client ''https://default'') \<and>
   (\<exists>t. LangChainTracer_constructor host0
           (fields0\<lparr>LangChainTracerFields.client := None\<rparr>) = Some t \<and>
      LangChainTracer.client t = logging_client ''https://default'')"
proof -
  have fin: "\<And>p. finite (run_ids (store (host0\<lparr>getCurrentRunTree := p\<rparr>)))"
    by (simp add: host0_def finite_run_ids_chainABC)
  have fin0: "finite (run_ids (store host0))"
    by (simp add: host0_def finite_run_ids_chainABC)
  from constructor_adopts_ambient_client[OF fin, of "Inr (Some 0)" "fields0\<lparr>LangChainTracerFields.client := None\<rparr>"]
       constructor_adopts_ambient_client[OF fin, of "Inr (Some 1)" "fields0\<lparr>LangChainTracerFields.client := None\<rparr>"]
       constructor_adopts_ambient_client[OF fin0, of "fields0\<lparr>LangChainTracerFields.client := None\<rparr>"]
       fin
  show ?thesis
    by (simp add: getTraceableRunTree_def host0_def chainABC_def node_def nullish_def)
qed

text \<open>
  C10.  If \<open>fields.client\<close> is given, the probe returns a node, and that node
  carries a client, then the constructor returns a tracer whose client is the
  node's client; when the two clients differ, it is not the client of
  \<open>fields\<close>.
\<close>

theorem explicit_client_overridden_by_ambient:
  assumes fin: "finite (run_ids (store host))"
    and explicit: "LangChainTracerFields.client flds = Some c_explicit"
    and probe: "getCurrentRunTree host = Inr (Some n)"
    and ambient: "RunTree.client (store host n) = Some c_tree"
  shows "\<exists>t. LangChainTracer_constructor host flds = Some t \<and>
           LangChainTracer.client t = c_tree \<and>
           (c_tree \<noteq> c_explicit \<longrightarrow> LangChainTracer.client t \<noteq> c_explicit)"
proof -
  have p: "getTraceableRunTree host = Some n"
    by (simp add: getTraceableRunTree_def probe)
  from constructor_found[OF fin p, of flds] obtain t where
    t: "LangChainTracer_constructor host flds = Some t" and
    c: "LangChainTracer.client t = nullish (RunTree.client (store host n))
                                     (LangChainTracer.client (init_fields host flds))"
    by auto
  from c have "LangChainTracer.client t = c_tree"
    by (simp add: ambient nullish_def)
  with t show ?thesis by simp
qed

theorem explicit_client_overridden_by_ambient_witness:
  "finite (run_ids (store (host0\<lparr>getCurrentRunTree := Inr (Some 0)\<rparr>))) \<and>
   LangChainTracerFields.client fields0 = Some (logging_client ''https://explicit'') \<and>
   RunTree.client (store (host0\<lparr>getCurrentRunTree := Inr (Some 0)\<rparr>) 0)
     = Some (logging_client ''https://ambient'') \<and>
   logging_client ''https://ambient'' \<noteq> logging_client ''https://explicit'' \<and>
   (\<exists>t. LangChainTracer_constructor (host0\<lparr>getCurrentRunTree := Inr (Some 0)\<rparr>) fields0 = Some t \<and>
      LangChainTracer.client t = logging_client ''https://ambient'' \<and>
      LangChainTracer.client t \<noteq> logging_client ''https://explicit'')"
proof -
  let ?host = "host0\<lparr>getCurrentRunTree := Inr (Some 0)\<rparr>"
  have fin: "finite (run_ids (store ?host))"
    by (simp add: host0_def finite_run_ids_chainABC)
  have explicit: "LangChainTracerFields.client fields0 = Some (logging_client ''https://explicit'')"
    by (simp add: fields0_def)
  have probe: "getCurrentRunTree ?host = Inr (Some 0)" by simp
  have ambient: "RunTree.client (store ?host 0) = Some (logging_client ''https://ambient'')"
    by (simp add: host0_def chainABC_def node_def)
  have ne: "logging_client ''https://ambient'' \<noteq> logging_client ''https://explicit''"
    by (simp add: logging_client_def)
  from explicit_client_overridden_by_ambient[OF fin explicit probe ambient] fin explicit ambient ne
  show ?thesis by auto
qed

section \<open>The creation payload\<close>

text \<open>
  C1, as stated, fails for a run whose \<open>parent_run_id\<close> is present and is
  the empty string: the test \<open>run.parent_run_id ? undefined : example_id\<close> is
  a test of truthiness, the empty string is falsy, and the payload carries the
  example id.
\<close>

theorem reference_example_id_empty_parent_counterexample:
  "\<not> (Run.parent_run_id (example_run ''r2'' (Some '''') None) \<noteq> None \<longrightarrow>
        RunCreate.reference_example_id
          (convertToCreate host0 tracer0 (example_run ''r2'' (Some '''') None) (Some ''ex1''))
        = None)"
  by (simp add: convertToCreate_def example_run_def truthy_str_def)

text \<open>
  C1, amended.  For every run and every example id \<open>e\<close>, the creation payload
  (\<open>onRunCreate\<close> passes \<open>this.exampleId\<close> as the example id) sets
  \<open>reference_example_id\<close> to \<open>e\<close> if and only if the run's \<open>parent_run_id\<close> is
  absent or the empty string; for a run whose \<open>parent_run_id\<close> is a non-empty
  string, the payload's \<open>reference_example_id\<close> is absent, whatever example
  id was supplied.
\<close>

theorem convertToCreate_reference_example_id:
  "(RunCreate.reference_example_id (convertToCreate host this run (Some e)) = Some e
      \<longleftrightarrow> Run.parent_run_id run = None \<or> Run.parent_run_id run = Some '''') \<and>
   (\<forall>p. Run.parent_run_id run = Some p \<and> p \<noteq> '''' \<longrightarrow>
      RunCreate.reference_example_id (convertToCreate host this run example_id) = None)"
  by (cases "Run.parent_run_id run") (auto simp: convertToCreate_def truthy_str_def)

theorem convertToCreate_reference_example_id_witness:
  "Run.parent_run_id (example_run ''r2'' (Some ''r1'') None) = Some ''r1'' \<and> ''r1'' \<noteq> '''' \<and>
   RunCreate.reference_example_id
     (convertToCreate host0 tracer0 (example_run ''r2'' (Some ''r1'') None) (Some ''ex1'')) = None \<and>
   RunCreate.reference_example_id
     (convertToCreate host0 tracer0 (example_run ''r1'' None None) (Some ''ex1'')) = Some ''ex1''"
proof -
  have p: "Run.parent_run_id (example_run ''r2'' (Some ''r1'') None) = Some ''r1'' \<and> ''r1'' \<noteq> ''''"
    by (simp add: example_run_def)
  have q: "Run.parent_run_id (example_run ''r1'' None None) = None"
    by (simp add: example_run_def)
  from convertToCreate_reference_example_id
         [of host0 tracer0 "example_run ''r2'' (Some ''r1'') None" "''ex1''" "Some ''ex1''"]
       convertToCreate_reference_example_id
         [of host0 tracer0 "example_run ''r1'' None None" "''ex1''" "Some ''ex1''"]
       p q
  show ?thesis by simp
qed

text \<open>
  C2, as stated, fails for a run that carries a \<open>reference_example_id\<close> of its
  own: the property written after the spread replaces it, here by
  \<open>undefined\<close>, as no example id is configured.
\<close>

theorem convertToCreate_replaces_reference_example_id_counterexample:
  "RunCreate.reference_example_id
     (convertToCreate host0 (tracer0\<lparr>LangChainTracer.exampleId := None\<rparr>)
        (example_run ''r1'' None (Some ''ex0'')) None)
   \<noteq> Run.reference_example_id (example_run ''r1'' None (Some ''ex0''))"
  by (simp add: convertToCreate_def example_run_def truthy_str_def)

text \<open>
  C2, amended.  For every run, the creation payload equals the run's own
  fields except that: \<open>child_runs\<close> is omitted, \<open>extra\<close> is the run's
  \<open>extra\<close> with the entry \<open>runtime\<close> set to the result of the runtime
  introspection, \<open>session_name\<close> is the tracer's \<open>projectName\<close>, and
  \<open>reference_example_id\<close> is not the run's own but the one the payload is
  given by the rule of C1.
\<close>

theorem convertToCreate_fields:
  "RunCreate.run_id (convertToCreate host this run example_id) = Run.run_id run \<and>
   RunCreate.name (convertToCreate host this run example_id) = Run.name run \<and>
   RunCreate.run_type (convertToCreate host this run example_id) = Run.run_type run \<and>
   RunCreate.start_time (convertToCreate host this run example_id) = Run.start_time run \<and>
   RunCreate.end_time (convertToCreate host this run example_id) = Run.end_time run \<and>
   RunCreate.error (convertToCreate host this run example_id) = Run.error run \<and>
   RunCreate.serialized (convertToCreate host this run example_id) = Run.serialized run \<and>
   RunCreate.events (convertToCreate host this run example_id) = Run.events run \<and>
   RunCreate.inputs (convertToCreate host this run example_id) = Run.inputs run \<and>
   RunCreate.outputs (convertToCreate host this run example_id) = Run.outputs run \<and>
   RunCreate.parent_run_id (convertToCreate host this run example_id) = Run.parent_run_id run \<and>
   RunCreate.tags (convertToCreate host this run example_id) = Run.tags run \<and>
   RunCreate.child_execution_order (convertToCreate host this run example_id)
     = Run.child_execution_order run \<and>
   RunCreate.dotted_order (convertToCreate host this run example_id) = Run.dotted_order run \<and>
   RunCreate.trace_id (convertToCreate host this run example_id) = Run.trace_id run \<and>
   RunCreate.child_runs (convertToCreate host this run example_id) = None \<and>
   RunCreate.extra (convertToCreate host this run example_id)
     = Some ((case Run.extra run of None \<Rightarrow> Map.empty | Some m \<Rightarrow> m)
              (''runtime'' \<mapsto> getRuntimeEnvironment host)) \<and>
   RunCreate.session_name (convertToCreate host this run example_id)
     = LangChainTracer.projectName this \<and>
   RunCreate.reference_example_id (convertToCreate host this run example_id)
     = (if truthy_str (Run.parent_run_id run) then None else example_id)"
  by (simp add: convertToCreate_def nullish_def)

theorem convertToCreate_fields_witness:
  "RunCreate.run_id (convertToCreate host0 tracer0 (example_run ''r1'' None (Some ''ex0'')) (Some ''ex1''))
     = ''r1'' \<and>
   RunCreate.child_runs (convertToCreate host0 tracer0 (example_run ''r1'' None (Some ''ex0'')) (Some ''ex1''))
     = None \<and>
   RunCreate.extra (convertToCreate host0 tracer0 (example_run ''r1'' None (Some ''ex0'')) (Some ''ex1''))
     = Some [''batch'' \<mapsto> JNum 7, ''runtime'' \<mapsto> JObj [(''library'', JStr ''langchain-js'')]] \<and>
   RunCreate.session_name (convertToCreate host0 tracer0 (example_run ''r1'' None (Some ''ex0'')) (Some ''ex1''))
     = Some ''default'' \<and>
   RunCreate.reference_example_id
       (convertToCreate host0 tracer0 (example_run ''r1'' None (Some ''ex0'')) (Some ''ex1''))
     = Some ''ex1''"
  using convertToCreate_fields [of host0 tracer0 "example_run ''r1'' None (Some ''ex0'')" "Some ''ex1''"]
  by (simp add: example_run_def host0_def tracer0_def init_fields_def fields0_def
        nullish_opt_def truthy_str_def)

section \<open>The update payload\<close>

text \<open>
  C3.  \<open>onRunUpdate\<close> makes one call of \<open>updateRun\<close>, with the run's id and a
  payload whose fields are \<open>end_time\<close>, \<open>error\<close>, \<open>outputs\<close>, \<open>events\<close>,
  \<open>inputs\<close>, \<open>trace_id\<close>, \<open>dotted_order\<close> and \<open>parent_run_id\<close>, each the
  run's own.  The payload has no other field (the record \<open>RunUpdate\<close> has
  these eight), and nothing else of the run reaches it: a run that differs in
  any of its other fields, \<open>child_runs\<close> and \<open>reference_example_id\<close> among
  them, gives the same payload.  The tracer's \<open>projectName\<close> is not read.
\<close>

theorem onRunUpdate_payload:
  "onRunUpdate this run w
     = updateRun (LangChainTracer.client this) (Run.run_id run) (toUpdatePayload run) w \<and>
   RunUpdate.end_time (toUpdatePayload run) = Run.end_time run \<and>
   RunUpdate.error (toUpdatePayload run) = Run.error run \<and>
   RunUpdate.outputs (toUpdatePayload run) = Run.outputs run \<and>
   RunUpdate.events (toUpdatePayload run) = Run.events run \<and>
   RunUpdate.inputs (toUpdatePayload run) = Run.inputs run \<and>
   RunUpdate.trace_id (toUpdatePayload run) = Run.trace_id run \<and>
   RunUpdate.dotted_order (toUpdatePayload run) = Run.dotted_order run \<and>
   RunUpdate.parent_run_id (toUpdatePayload run) = Run.parent_run_id run \<and>
   toUpdatePayload
     (run\<lparr> Run.run_id := i, Run.name := nm, Run.run_type := rt, Run.start_time := st,
           Run.extra := ex, Run.serialized := se, Run.reference_example_id := re,
           Run.tags := tg, Run.child_runs := cr, Run.child_execution_order := ceo \<rparr>)
     = toUpdatePayload run"
  by (simp add: onRunUpdate_def toUpdatePayload_def)

theorem onRunUpdate_payload_witness:
  "onRunUpdate tracer0 (example_run ''r2'' (Some ''r1'') (Some ''ex0'')) 0 = (Inr (), 1) \<and>
   RunUpdate.trace_id (toUpdatePayload (example_run ''r2'' (Some ''r1'') (Some ''ex0''))) = Some ''r1'' \<and>
   RunUpdate.dotted_order (toUpdatePayload (example_run ''r2'' (Some ''r1'') (Some ''ex0'')))
     = Some ''10.r1'' \<and>
   toUpdatePayload (example_run ''r2'' (Some ''r1'') (Some ''ex0''))
     = toUpdatePayload (example_run ''r2'' (Some ''r1'') None)"
proof -
  have e: "example_run ''r2'' (Some ''r1'') None =
           (example_run ''r2'' (Some ''r1'') (Some ''ex0''))
             \<lparr> Run.run_id := ''r2'', Run.name := ''step'', Run.run_type := ''tool'',
               Run.start_time := Some 10, Run.extra := Some [''batch'' \<mapsto> JNum 7],
               Run.serialized := None, Run.reference_example_id := None,
               Run.tags := Some [''t''], Run.child_runs := [5],
               Run.child_execution_order := 2 \<rparr>"
    by (simp add: example_run_def)
  from onRunUpdate_payload
         [where this = tracer0 and run = "example_run ''r2'' (Some ''r1'') (Some ''ex0'')"
            and w = 0 and i = "''r2''" and nm = "''step''" and rt = "''tool''"
            and st = "Some 10" and ex = "Some [''batch'' \<mapsto> JNum 7]" and se = None
            and re = None and tg = "Some [''t'']" and cr = "[5]" and ceo = 2]
  show ?thesis
    unfolding e [symmetric]
    by (simp add: tracer0_def init_fields_def fields0_def nullish_def logging_client_def
          example_run_def)
qed

section \<open>Failures of the persistence client\<close>

text \<open>
  C9.  \<open>onRunCreate\<close> is one call of the client's \<open>createRun\<close> on the creation
  payload, and \<open>onRunUpdate\<close> is one call of the client's \<open>updateRun\<close>: the
  outcome of the operation is the outcome of that call, and the world after
  the operation is the world after that one call.  So the operation rejects
  with \<open>e\<close> exactly when the call rejects with \<open>e\<close>.  (The runtime
  introspection awaited by \<open>_convertToCreate\<close> is a value of the host: the
  spec gives it no failure.)
\<close>

theorem client_failure_propagates:
  "onRunCreate host this run w
     = createRun (LangChainTracer.client this)
         (convertToCreate host this run (LangChainTracer.exampleId this)) w \<and>
   onRunUpdate this run w
     = updateRun (LangChainTracer.client this) (Run.run_id run) (toUpdatePayload run) w \<and>
   (fst (onRunCreate host this run w) = Inl e \<longleftrightarrow>
      fst (createRun (LangChainTracer.client this)
             (convertToCreate host this run (LangChainTracer.exampleId this)) w) = Inl e) \<and>
   (fst (onRunUpdate this run w) = Inl e \<longleftrightarrow>
      fst (updateRun (LangChainTracer.client this) (Run.run_id run) (toUpdatePayload run) w) = Inl e)"
  by (simp add: onRunCreate_def onRunUpdate_def)

theorem client_failure_propagates_witness:
  "onRunCreate host0 (tracer0\<lparr>LangChainTracer.client := failing_client ''https://down''\<rparr>)
     (example_run ''r1'' None None) 0 = (Inl (Error ''503 create''), 1) \<and>
   onRunUpdate (tracer0\<lparr>LangChainTracer.client := failing_client ''https://down''\<rparr>)
     (example_run ''r1'' None None) 0 = (Inl (Error ''503 update''), 1) \<and>
   onRunCreate host0 tracer0 (example_run ''r1'' None None) 0 = (Inr (), 1)"
  using client_failure_propagates
          [of host0 "tracer0\<lparr>LangChainTracer.client := failing_client ''https://down''\<rparr>"
              "example_run ''r1'' None None" 0]
        client_failure_propagates [of host0 tracer0 "example_run ''r1'' None None" 0]
  by (simp add: failing_client_def logging_client_def tracer0_def init_fields_def fields0_def
        nullish_def)

section \<open>Construction of \<open>RunnableTraceable\<close>\<close>

text \<open>
  C8.  For a function that fails the capability check, the constructor
  throws the configuration error and yields no instance, so there is nothing
  \<open>invoke\<close> could be called on; for a function that passes the check, it
  yields an instance that stores the function.
\<close>

theorem RunnableTraceable_constructor_checks:
  "(\<not> isTraceableFunction (RunnableTraceableFields.func flds) \<longrightarrow>
      RunnableTraceable_constructor isTraceableFunction flds =
        Inl (Error ''RunnableTraceable requires a function that is wrapped in traceable higher-order function'')) \<and>
   (isTraceableFunction (RunnableTraceableFields.func flds) \<longrightarrow>
      (\<exists>r. RunnableTraceable_constructor isTraceableFunction flds = Inr r \<and>
           RunnableTraceable.func r = RunnableTraceableFields.func flds))"
  by (simp add: RunnableTraceable_constructor_def)

theorem RunnableTraceable_constructor_checks_witness:
  "\<not> example_isTraceableFunction PlainFunction \<and>
   example_isTraceableFunction WrappedFunction \<and>
   (\<exists>e. RunnableTraceable_constructor example_isTraceableFunction
           \<lparr>RunnableTraceableFields.func = PlainFunction\<rparr> = Inl e) \<and>
   (\<exists>r. RunnableTraceable_constructor example_isTraceableFunction
           \<lparr>RunnableTraceableFields.func = WrappedFunction\<rparr> = Inr r \<and>
        RunnableTraceable.func r = WrappedFunction)"
  using RunnableTraceable_constructor_checks
          [of example_isTraceableFunction "\<lparr>RunnableTraceableFields.func = PlainFunction\<rparr>"]
        RunnableTraceable_constructor_checks
          [of example_isTraceableFunction "\<lparr>RunnableTraceableFields.func = WrappedFunction\<rparr>"]
  by (simp add: example_isTraceableFunction_def)


end
